theory Spec2Isabelle
  imports Complex_Main
begin

section \<open>Strings of the source\<close>

text \<open>
  A TypeScript string is a sequence of UTF-16 code units. The source uses code units beyond
  the ASCII range (the en dash U+2013, the bullet U+2022, the middle dot U+00B7) and its
  \<open>trim\<close> strips Unicode white space, so a string is modelled by the list of its code
  units, each a natural number. ASCII literals are written with \<open>ascii\<close>.
\<close>

type_synonym jsstring = "nat list"

definition ascii :: "string \<Rightarrow> jsstring" where
  "ascii s = map of_char s"

definition NL :: nat where "NL = 10"
definition SPACE :: nat where "SPACE = 32"
definition STAR :: nat where "STAR = 42"
definition HYPHEN :: nat where "HYPHEN = 45"
definition SLASH :: nat where "SLASH = 47"
definition COLON :: nat where "COLON = 58"
definition MIDDLE_DOT :: nat where "MIDDLE_DOT = 183"
definition EN_DASH :: nat where "EN_DASH = 8211"
definition BULLET :: nat where "BULLET = 8226"

text \<open>
  White space as \<open>String.prototype.trim\<close> and the regular expression class \<open>\s\<close> see
  it: the WhiteSpace and LineTerminator code points of ECMAScript.
\<close>

definition isWhiteSpace :: "nat \<Rightarrow> bool" where
  "isWhiteSpace c =
     (c = 9 \<or> c = 10 \<or> c = 11 \<or> c = 12 \<or> c = 13 \<or> c = 32 \<or> c = 160 \<or> c = 5760 \<or>
      (8192 \<le> c \<and> c \<le> 8202) \<or> c = 8232 \<or> c = 8233 \<or> c = 8239 \<or> c = 8287 \<or>
      c = 12288 \<or> c = 65279)"

text \<open>The regular expression atom \<open>.\<close> (no \<open>s\<close> flag): every code unit but a line terminator.\<close>

definition isDot :: "nat \<Rightarrow> bool" where
  "isDot c = (\<not> (c = 10 \<or> c = 13 \<or> c = 8232 \<or> c = 8233))"

text \<open>The class \<open>\d\<close>.\<close>

definition isDigit :: "nat \<Rightarrow> bool" where
  "isDigit c = (48 \<le> c \<and> c \<le> 57)"

definition trim :: "jsstring \<Rightarrow> jsstring" where
  "trim s = rev (dropWhile isWhiteSpace (rev (dropWhile isWhiteSpace s)))"

text \<open>
  \<open>s.split(sep)\<close> for a separator of one code unit: \<open>n\<close> separators give \<open>n + 1\<close> pieces,
  the empty string gives one empty piece. The last case of the inner \<open>case\<close> cannot arise
  (the result is never empty) and only makes the function total.
\<close>

fun split_on :: "nat \<Rightarrow> jsstring \<Rightarrow> jsstring list" where
  "split_on sep [] = [[]]"
| "split_on sep (c # cs) =
     (if c = sep then [] # split_on sep cs
      else (case split_on sep cs of
              w # ws \<Rightarrow> (c # w) # ws
            | [] \<Rightarrow> [[c]]))"

text \<open>\<open>xs.join(sep)\<close>.\<close>

fun join :: "jsstring \<Rightarrow> jsstring list \<Rightarrow> jsstring" where
  "join sep [] = []"
| "join sep [x] = x"
| "join sep (x # y # ys) = x @ sep @ join sep (y # ys)"

definition startsWith :: "jsstring \<Rightarrow> jsstring \<Rightarrow> bool" where
  "startsWith s p = (take (length p) s = p)"

definition endsWith :: "jsstring \<Rightarrow> jsstring \<Rightarrow> bool" where
  "endsWith s p = (length p \<le> length s \<and> drop (length s - length p) s = p)"

text \<open>\<open>s.includes(c)\<close> for one code unit \<open>c\<close>.\<close>

definition includes_unit :: "jsstring \<Rightarrow> nat \<Rightarrow> bool" where
  "includes_unit s c = (c \<in> set s)"

text \<open>Reading an array at an index that may be out of range: \<open>undefined\<close> is \<open>None\<close>.\<close>

definition at_index :: "'a list \<Rightarrow> nat \<Rightarrow> 'a option" where
  "at_index xs i = (if i < length xs then Some (xs ! i) else None)"

section \<open>parseResume\<close>

record resume =
  headline :: "jsstring option"
  name :: "jsstring option"
  email :: "jsstring option"
  phone :: "jsstring option"
  location :: "jsstring option"
  linkedin :: "jsstring option"
  body :: jsstring

text \<open>
  The \<open>for\<close> loop of \<open>parseResume\<close>, over the lines from index \<open>idx\<close> on: the result is
  \<open>info\<close> and \<open>bodyStart\<close>. When the lines run out before six have been collected,
  \<open>bodyStart\<close> keeps its initial value \<open>0\<close>.
\<close>

fun header_scan :: "jsstring list \<Rightarrow> nat \<Rightarrow> jsstring list \<Rightarrow> jsstring list \<times> nat" where
  "header_scan [] idx info = (info, 0)"
| "header_scan (l # ls) idx info =
     (let info' = (if trim l \<noteq> [] then info @ [trim l] else info)
      in if length info' = 6 then (info', idx + 1)
         else header_scan ls (idx + 1) info')"

text \<open>The \<open>while\<close> loop that moves \<open>bodyStart\<close> over blank lines.\<close>

function skip_blank :: "jsstring list \<Rightarrow> nat \<Rightarrow> nat" where
  "skip_blank lines bodyStart =
     (if bodyStart < length lines \<and> trim (lines ! bodyStart) = []
      then skip_blank lines (bodyStart + 1)
      else bodyStart)"
  by pat_completeness auto
termination
  by (relation "measure (\<lambda>(lines, b). length lines - b)") auto

declare skip_blank.simps [simp del]

definition parseResume :: "jsstring \<Rightarrow> resume" where
  "parseResume resumeText =
     (let lines = split_on NL resumeText;
          (info, bodyStart) = header_scan lines 0 [];
          bodyStart' = skip_blank lines bodyStart
      in \<lparr> headline = at_index info 0, name = at_index info 1, email = at_index info 2,
           phone = at_index info 3, location = at_index info 4, linkedin = at_index info 5,
           body = join [NL] (drop bodyStart' lines) \<rparr>)"

section \<open>formatDate\<close>

definition monthNames :: "jsstring list" where
  "monthNames =
     [ascii ''Jan'', ascii ''Feb'', ascii ''Mar'', ascii ''Apr'', ascii ''May'', ascii ''Jun'',
      ascii ''Jul'', ascii ''Aug'', ascii ''Sep'', ascii ''Oct'', ascii ''Nov'', ascii ''Dec'']"

text \<open>
  The test \<open>/^\d{2}\/\d{4}$/\<close>: two digits, a slash and four digits, and nothing else
  (without the \<open>m\<close> flag \<open>$\<close> is the end of the string).
\<close>

definition matches_mm_yyyy :: "jsstring \<Rightarrow> bool" where
  "matches_mm_yyyy s =
     (case s of
        [m1, m2, sl, y1, y2, y3, y4] \<Rightarrow>
          isDigit m1 \<and> isDigit m2 \<and> sl = SLASH \<and> isDigit y1 \<and> isDigit y2 \<and> isDigit y3 \<and> isDigit y4
      | _ \<Rightarrow> False)"

text \<open>\<open>parseInt\<close> on a string of decimal digits.\<close>

definition parseInt :: "jsstring \<Rightarrow> int" where
  "parseInt s = foldl (\<lambda>acc c. 10 * acc + (int c - 48)) 0 s"

text \<open>
  \<open>monthNames[monthIndex]\<close> inside a template literal: an index outside the array reads
  \<open>undefined\<close>, which the template prints as the word \<open>undefined\<close>. Nothing is thrown.
\<close>

definition month_text :: "int \<Rightarrow> jsstring" where
  "month_text monthIndex =
     (if 0 \<le> monthIndex \<and> nat monthIndex < length monthNames
      then monthNames ! nat monthIndex
      else ascii ''undefined'')"

text \<open>
  The body shared by both branches, for a string that passed the test: split at the slash,
  read the month, print month name and year. The split of such a string has exactly two
  pieces; the last case only makes the function total.
\<close>

definition format_mm_yyyy :: "jsstring \<Rightarrow> jsstring" where
  "format_mm_yyyy part =
     (case split_on SLASH part of
        month # year # _ \<Rightarrow> month_text (parseInt month - 1) @ [SPACE] @ year
      | _ \<Rightarrow> ascii ''undefined undefined'')"

text \<open>\<open>dateStr.split\<close> with a class of two separators: split at every en dash and every hyphen.\<close>

fun split_dash :: "jsstring \<Rightarrow> jsstring list" where
  "split_dash [] = [[]]"
| "split_dash (c # cs) =
     (if c = EN_DASH \<or> c = HYPHEN then [] # split_dash cs
      else (case split_dash cs of
              w # ws \<Rightarrow> (c # w) # ws
            | [] \<Rightarrow> [[c]]))"

definition formatDate :: "jsstring \<Rightarrow> jsstring" where
  "formatDate dateStr =
     (if includes_unit dateStr EN_DASH \<or> includes_unit dateStr HYPHEN then
        join [SPACE, EN_DASH, SPACE]
          (map (\<lambda>part. if matches_mm_yyyy part then format_mm_yyyy part else part)
               (map trim (split_dash dateStr)))
      else if matches_mm_yyyy dateStr then format_mm_yyyy dateStr
      else dateStr)"

section \<open>wrapText\<close>

text \<open>
  The two embedded fonts, and what the source asks of the PDF library and of the language:
  the measured width of a text in a font at a size (\<open>font.widthOfTextAtSize\<close>) and the two
  case conversions of strings. They are parameters of the model. Numbers are exact
  rationals: the doubles of the source differ from them by rounding only (in
  \<open>11 * 1.4\<close> and \<open>24 * 0.8\<close>).
\<close>

datatype font = Helvetica | HelveticaBold

record env =
  widthOfTextAtSize :: "font \<Rightarrow> jsstring \<Rightarrow> rat \<Rightarrow> rat"
  toUpperCase :: "jsstring \<Rightarrow> jsstring"
  toLowerCase :: "jsstring \<Rightarrow> jsstring"

text \<open>One turn of the loop of \<open>wrapText\<close> on the state \<open>(lines, currentLine)\<close>.\<close>

definition wrap_step ::
  "env \<Rightarrow> font \<Rightarrow> rat \<Rightarrow> rat \<Rightarrow> jsstring list \<times> jsstring \<Rightarrow> jsstring \<Rightarrow> jsstring list \<times> jsstring" where
  "wrap_step e fnt sz maxWidth st word =
     (case st of (lines, currentLine) \<Rightarrow>
        let testLine = (if currentLine \<noteq> [] then currentLine @ [SPACE] @ word else word);
            testWidth = widthOfTextAtSize e fnt testLine sz
        in if testWidth > maxWidth \<and> currentLine \<noteq> []
           then (lines @ [currentLine], word)
           else (lines, testLine))"

definition wrapText :: "env \<Rightarrow> jsstring \<Rightarrow> font \<Rightarrow> rat \<Rightarrow> rat \<Rightarrow> jsstring list" where
  "wrapText e str fnt sz maxWidth =
     (case foldl (wrap_step e fnt sz maxWidth) ([], []) (split_on SPACE str) of
        (lines, currentLine) \<Rightarrow>
          if currentLine \<noteq> [] then lines @ [currentLine] else lines)"

section \<open>The page and what is drawn on it\<close>

datatype color = BLACK | DARK_BLUE | MEDIUM_BLUE | GRAY | DARK_GRAY

text \<open>
  The calls the source makes on the PDF document, in the order it makes them: a page is
  added (and becomes the current page), a text is drawn on the current page (text, x, y,
  size, font, color), a line is drawn (start x, start y, end x, end y, thickness, color).
\<close>

datatype op =
    AddPage rat rat
  | DrawText jsstring rat rat rat font color
  | DrawLine rat rat rat rat rat color

definition MARGIN_TOP :: rat where "MARGIN_TOP = 72"
definition MARGIN_BOTTOM :: rat where "MARGIN_BOTTOM = 50"
definition MARGIN_LEFT :: rat where "MARGIN_LEFT = 50"
definition MARGIN_RIGHT :: rat where "MARGIN_RIGHT = 50"
definition PAGE_WIDTH :: rat where "PAGE_WIDTH = 595"
definition PAGE_HEIGHT :: rat where "PAGE_HEIGHT = 842"
definition CONTENT_WIDTH :: rat where "CONTENT_WIDTH = PAGE_WIDTH - MARGIN_LEFT - MARGIN_RIGHT"

definition NAME_SIZE :: rat where "NAME_SIZE = 24"
definition CONTACT_SIZE :: rat where "CONTACT_SIZE = 9"
definition SECTION_HEADER_SIZE :: rat where "SECTION_HEADER_SIZE = 14"
definition BODY_SIZE :: rat where "BODY_SIZE = 11"

definition NAME_LINE_HEIGHT :: rat where "NAME_LINE_HEIGHT = NAME_SIZE * 0.8"
definition CONTACT_LINE_HEIGHT :: rat where "CONTACT_LINE_HEIGHT = CONTACT_SIZE * 1.5"
definition SECTION_LINE_HEIGHT :: rat where "SECTION_LINE_HEIGHT = SECTION_HEADER_SIZE * 1.5"
definition BODY_LINE_HEIGHT :: rat where "BODY_LINE_HEIGHT = BODY_SIZE * 1.4"

definition left :: rat where "left = MARGIN_LEFT"
definition right :: rat where "right = PAGE_WIDTH - MARGIN_RIGHT"

section \<open>drawTextWithBold\<close>

text \<open>
  A match of \<open>\*\*[^*]+\*\*\<close> at the start of a string: two asterisks, the longest run of
  other code units (at least one), two asterisks. The run ends at the first asterisk, so a
  shorter run cannot help. The result is the matched text and the rest of the string.
\<close>

definition bold_at :: "jsstring \<Rightarrow> (jsstring \<times> jsstring) option" where
  "bold_at s =
     (case s of
        a # b # rest \<Rightarrow>
          (let run = takeWhile (\<lambda>c. c \<noteq> STAR) rest;
               after = dropWhile (\<lambda>c. c \<noteq> STAR) rest
           in if a = STAR \<and> b = STAR \<and> run \<noteq> [] \<and> take 2 after = [STAR, STAR]
              then Some ([STAR, STAR] @ run @ [STAR, STAR], drop 2 after)
              else None)
      | _ \<Rightarrow> None)"

text \<open>
  \<open>text.split(/(\*\*[^*]+\*\*)/g)\<close>: the pieces between the matches, and each match (the
  capture group) between them. \<open>cur\<close> is the piece being read.
\<close>

function split_bold :: "jsstring \<Rightarrow> jsstring \<Rightarrow> jsstring list" where
  "split_bold cur [] = [cur]"
| "split_bold cur (c # cs) =
     (case bold_at (c # cs) of
        Some (m, rest) \<Rightarrow> cur # m # split_bold [] rest
      | None \<Rightarrow> split_bold (cur @ [c]) cs)"
  by pat_completeness auto
termination
proof (relation "measure (\<lambda>(cur, s). length s)")
  show "wf (measure (\<lambda>(cur, s). length s))" by simp
next
  fix cur :: jsstring and c cs x2 x y
  assume "bold_at (c # cs) = Some x2" and "(x, y) = x2"
  then have "length y < length (c # cs)"
    by (auto simp: bold_at_def Let_def le_imp_less_Suc less_Suc_eq_le
          intro!: le_trans [OF diff_le_self] le_trans [OF length_dropWhile_le]
          split: list.splits if_splits)
  then show "(([], y), (cur, c # cs)) \<in> measure (\<lambda>(cur, s). length s)" by simp
next
  fix cur :: jsstring and c cs
  show "((cur @ [c], cs), (cur, c # cs)) \<in> measure (\<lambda>(cur, s). length s)" by simp
qed

text \<open>\<open>part.slice(2, -2)\<close>.\<close>

definition slice_2_minus2 :: "jsstring \<Rightarrow> jsstring" where
  "slice_2_minus2 s =
     (let lo = min 2 (length s); hi = length s - 2 in take (hi - lo) (drop lo s))"

text \<open>The loop over the parts; \<open>offsetX\<close> moves right by the width of each drawn part.\<close>

fun draw_parts :: "env \<Rightarrow> jsstring list \<Rightarrow> rat \<Rightarrow> rat \<Rightarrow> font \<Rightarrow> font \<Rightarrow> rat \<Rightarrow> color \<Rightarrow> op list" where
  "draw_parts e [] offsetX y fnt fntBold sz col = []"
| "draw_parts e (part # parts) offsetX y fnt fntBold sz col =
     (if startsWith part [STAR, STAR] \<and> endsWith part [STAR, STAR] then
        (let content = slice_2_minus2 part
         in DrawText content offsetX y sz fntBold col #
            draw_parts e parts (offsetX + widthOfTextAtSize e fntBold content sz) y fnt fntBold sz col)
      else
        DrawText part offsetX y sz fnt col #
        draw_parts e parts (offsetX + widthOfTextAtSize e fnt part sz) y fnt fntBold sz col)"

definition drawTextWithBold ::
  "env \<Rightarrow> jsstring \<Rightarrow> rat \<Rightarrow> rat \<Rightarrow> font \<Rightarrow> font \<Rightarrow> rat \<Rightarrow> color \<Rightarrow> op list" where
  "drawTextWithBold e str x y fnt fntBold sz col =
     draw_parts e (split_bold [] str) x y fnt fntBold sz col"

section \<open>The two patterns of a job line\<close>

text \<open>
  The loose test \<open>/ at .+:.+/.test(line)\<close>. The pattern is not anchored, so it may start
  at any position. \<open>rx_colon_tail\<close> reads the remainder of the first \<open>.+\<close>, the colon
  and one code unit of the second \<open>.+\<close>; \<open>rx_after_at\<close> reads the first code unit of the
  first \<open>.+\<close> before it.
\<close>

fun rx_colon_tail :: "jsstring \<Rightarrow> bool" where
  "rx_colon_tail [] = False"
| "rx_colon_tail (c # cs) =
     ((c = COLON \<and> (case cs of d # _ \<Rightarrow> isDot d | [] \<Rightarrow> False)) \<or> (isDot c \<and> rx_colon_tail cs))"

definition rx_after_at :: "jsstring \<Rightarrow> bool" where
  "rx_after_at s = (case s of c # cs \<Rightarrow> isDot c \<and> rx_colon_tail cs | [] \<Rightarrow> False)"

definition AT :: jsstring where "AT = [SPACE, 97, 116, SPACE]"

fun isJobExperience :: "jsstring \<Rightarrow> bool" where
  "isJobExperience [] = False"
| "isJobExperience (c # cs) =
     ((startsWith (c # cs) AT \<and> rx_after_at (drop 4 (c # cs))) \<or> isJobExperience cs)"

text \<open>
  The strict pattern \<open>/^(.+?) at (.+?):\s*(.+)$/\<close> of \<open>line.match\<close>, in the order in
  which a backtracking matcher tries the alternatives. The last group with the end anchor:
  every remaining code unit, at least one, none of them a line terminator.
\<close>

definition rx_rest :: "jsstring \<Rightarrow> jsstring option" where
  "rx_rest s = (if s \<noteq> [] \<and> list_all isDot s then Some s else None)"

text \<open>\<open>\s*(.+)$\<close>: the greedy star takes a white space first and gives it back on failure.\<close>

fun rx_space_rest :: "jsstring \<Rightarrow> jsstring option" where
  "rx_space_rest [] = None"
| "rx_space_rest (c # cs) =
     (if isWhiteSpace c then
        (case rx_space_rest cs of Some r \<Rightarrow> Some r | None \<Rightarrow> rx_rest (c # cs))
      else rx_rest (c # cs))"

text \<open>
  \<open>(.+?):\s*(.+)$\<close>: the lazy group takes one code unit, tries the rest of the pattern, and
  grows by one code unit on failure. \<open>acc\<close> is the group so far.
\<close>

fun rx_company :: "jsstring \<Rightarrow> jsstring \<Rightarrow> (jsstring \<times> jsstring) option" where
  "rx_company acc [] = None"
| "rx_company acc (c # cs) =
     (if isDot c then
        (case (case cs of
                 d # ds \<Rightarrow> if d = COLON then rx_space_rest ds else None
               | [] \<Rightarrow> None) of
           Some period \<Rightarrow> Some (acc @ [c], period)
         | None \<Rightarrow> rx_company (acc @ [c]) cs)
      else None)"

text \<open>\<open>^(.+?) at \<close> and the rest: the first lazy group, in the same way.\<close>

fun rx_title :: "jsstring \<Rightarrow> jsstring \<Rightarrow> (jsstring \<times> jsstring \<times> jsstring) option" where
  "rx_title acc [] = None"
| "rx_title acc (c # cs) =
     (if isDot c then
        (case (if startsWith cs AT then rx_company [] (drop 4 cs) else None) of
           Some (companyName, period) \<Rightarrow> Some (acc @ [c], companyName, period)
         | None \<Rightarrow> rx_title (acc @ [c]) cs)
      else None)"

text \<open>The groups 1, 2 and 3 of the match, or \<open>None\<close> for \<open>null\<close>.\<close>

definition job_match :: "jsstring \<Rightarrow> (jsstring \<times> jsstring \<times> jsstring) option" where
  "job_match line = rx_title [] line"

section \<open>generateResumePdf\<close>

text \<open>
  The loop that every block of the body repeats: for each wrapped line, draw it at the
  cursor, move the cursor down by the line height, and then, when the cursor is below the
  bottom margin, add a page and put the cursor at the top margin. \<open>emit\<close> is the drawing
  call of the block. The result is the calls made and the cursor. The cursor is an exact
  rational where the source has a double, so the comparison with the margin can differ
  from the source's only for a cursor within rounding of the margin itself.
\<close>

definition roll :: "rat \<Rightarrow> op list \<times> rat" where
  "roll y = (if y < MARGIN_BOTTOM then ([AddPage PAGE_WIDTH PAGE_HEIGHT], PAGE_HEIGHT - MARGIN_TOP)
             else ([], y))"

fun draw_lines :: "(jsstring \<Rightarrow> rat \<Rightarrow> op list) \<Rightarrow> rat \<Rightarrow> jsstring list \<Rightarrow> rat \<Rightarrow> op list \<times> rat" where
  "draw_lines emit h [] y = ([], y)"
| "draw_lines emit h (l # ls) y =
     (case roll (y - h) of (ops1, y1) \<Rightarrow>
        (case draw_lines emit h ls y1 of (ops2, y2) \<Rightarrow>
           (emit l y @ ops1 @ ops2, y2)))"

text \<open>The loops of the name and of the contact line: the same without the page check.\<close>

fun draw_lines_header :: "(jsstring \<Rightarrow> rat \<Rightarrow> op list) \<Rightarrow> rat \<Rightarrow> jsstring list \<Rightarrow> rat \<Rightarrow> op list \<times> rat" where
  "draw_lines_header emit h [] y = ([], y)"
| "draw_lines_header emit h (l # ls) y =
     (case draw_lines_header emit h ls (y - h) of (ops2, y2) \<Rightarrow> (emit l y @ ops2, y2))"

definition drawText :: "rat \<Rightarrow> rat \<Rightarrow> font \<Rightarrow> color \<Rightarrow> jsstring \<Rightarrow> rat \<Rightarrow> op list" where
  "drawText x sz fnt col str y = [DrawText str x y sz fnt col]"

text \<open>The three blocks of a job entry, with the gaps before and after.\<close>

definition draw_job :: "env \<Rightarrow> jsstring \<Rightarrow> jsstring \<Rightarrow> jsstring \<Rightarrow> rat \<Rightarrow> op list \<times> rat" where
  "draw_job e jobTitle companyName period y =
     (case draw_lines (drawText (left + 10) (BODY_SIZE + 1) HelveticaBold MEDIUM_BLUE)
             (BODY_LINE_HEIGHT + 2)
             (wrapText e (trim jobTitle) HelveticaBold (BODY_SIZE + 1) (CONTENT_WIDTH - 10))
             (y - 8) of
        (ops1, y1) \<Rightarrow>
     (case draw_lines (drawText (left + 10) BODY_SIZE Helvetica GRAY)
             BODY_LINE_HEIGHT
             (wrapText e (trim companyName) Helvetica BODY_SIZE (CONTENT_WIDTH - 10))
             y1 of
        (ops2, y2) \<Rightarrow>
     (case draw_lines (drawText (left + 10) (BODY_SIZE - 1) Helvetica GRAY)
             (BODY_LINE_HEIGHT - 2)
             (wrapText e (formatDate (trim period)) Helvetica (BODY_SIZE - 1) (CONTENT_WIDTH - 10))
             y2 of
        (ops3, y3) \<Rightarrow> (ops1 @ ops2 @ ops3, y3 - 4))))"

text \<open>
  What one turn of the body loop does on a line that is not blank, up to the check at the
  end of the turn: the calls made, the cursor and the flag \<open>inSkillsSection\<close>.
\<close>

definition body_branch :: "env \<Rightarrow> jsstring \<Rightarrow> rat \<Rightarrow> bool \<Rightarrow> op list \<times> rat \<times> bool" where
  "body_branch e line y inSkillsSection =
     (if endsWith line [COLON] then
        (case draw_lines (drawText left SECTION_HEADER_SIZE HelveticaBold DARK_BLUE)
                SECTION_LINE_HEIGHT
                (wrapText e line HelveticaBold SECTION_HEADER_SIZE CONTENT_WIDTH)
                (y - 12) of
           (ops, y1) \<Rightarrow>
             (ops, y1, if toLowerCase e line = ascii ''skills:'' then True else inSkillsSection))
      else if isJobExperience line then
        (case job_match line of
           Some (jobTitle, companyName, period) \<Rightarrow>
             (case draw_job e jobTitle companyName period y of
                (ops, y1) \<Rightarrow> (ops, y1, inSkillsSection))
         | None \<Rightarrow> ([], y, inSkillsSection))
      else if startsWith line [MIDDLE_DOT] then
        (let categoryName = trim line
         in case draw_lines (drawText (left + 10) (BODY_SIZE + 1) HelveticaBold MEDIUM_BLUE)
                   (BODY_LINE_HEIGHT + 2)
                   (wrapText e categoryName HelveticaBold (BODY_SIZE + 1) (CONTENT_WIDTH - 20))
                   y of
              (ops, y1) \<Rightarrow> (ops, y1, inSkillsSection))
      else
        (case draw_lines
                (\<lambda>wrappedLine y'. drawTextWithBold e wrappedLine (left + 10) y'
                                      Helvetica HelveticaBold BODY_SIZE BLACK)
                BODY_LINE_HEIGHT
                (wrapText e line Helvetica BODY_SIZE (CONTENT_WIDTH - 10))
                y of
           (ops, y1) \<Rightarrow> (ops, y1, inSkillsSection)))"

text \<open>
  One turn of the body loop. A blank line moves the cursor down by 6 and \<open>continue\<close>s: it
  does not reach the check at the end of the turn.
\<close>

definition body_line :: "env \<Rightarrow> jsstring \<Rightarrow> rat \<Rightarrow> bool \<Rightarrow> op list \<times> rat \<times> bool" where
  "body_line e rawLine y inSkillsSection =
     (let line = trim rawLine
      in if line = [] then ([], y - 6, inSkillsSection)
         else (case body_branch e line y inSkillsSection of
                 (ops, y1, inSkills1) \<Rightarrow>
                   (case roll y1 of (ops2, y2) \<Rightarrow> (ops @ ops2, y2, inSkills1))))"

fun body_loop :: "env \<Rightarrow> jsstring list \<Rightarrow> rat \<Rightarrow> bool \<Rightarrow> op list \<times> rat \<times> bool" where
  "body_loop e [] y inSkillsSection = ([], y, inSkillsSection)"
| "body_loop e (l # ls) y inSkillsSection =
     (case body_line e l y inSkillsSection of
        (ops1, y1, inSkills1) \<Rightarrow>
          (case body_loop e ls y1 inSkills1 of
             (ops2, y2, inSkills2) \<Rightarrow> (ops1 @ ops2, y2, inSkills2)))"

text \<open>\<open>[location, phone, email, linkedin].filter(Boolean)\<close>: the fields that are set and not empty.\<close>

definition filter_Boolean :: "jsstring option list \<Rightarrow> jsstring list" where
  "filter_Boolean xs = filter (\<lambda>s. s \<noteq> []) (List.map_filter (\<lambda>x. x) xs)"

text \<open>
  The whole function. The result is the sequence of calls made on the document, which is
  what the saved bytes are made of. The array \<open>skills\<close> is never pushed to.
\<close>

definition generateResumePdf :: "env \<Rightarrow> jsstring \<Rightarrow> op list" where
  "generateResumePdf e resumeText =
     (let r = parseResume resumeText;
          y = PAGE_HEIGHT - MARGIN_TOP;
          (ops1, y1) =
            (case name r of
               Some n \<Rightarrow>
                 if n \<noteq> [] then
                   (case draw_lines_header (drawText left NAME_SIZE HelveticaBold DARK_BLUE)
                           NAME_LINE_HEIGHT
                           (wrapText e (toUpperCase e n) HelveticaBold NAME_SIZE CONTENT_WIDTH) y of
                      (ops, y') \<Rightarrow> (ops, y' - 2))
                 else ([], y - NAME_LINE_HEIGHT)
             | None \<Rightarrow> ([], y - NAME_LINE_HEIGHT));
          contactParts = filter_Boolean [location r, phone r, email r, linkedin r];
          (ops2, y2) =
            (if length contactParts > 0 then
               (case draw_lines_header (drawText left CONTACT_SIZE Helvetica DARK_GRAY)
                       CONTACT_LINE_HEIGHT
                       (wrapText e (join [SPACE, BULLET, SPACE] contactParts)
                          Helvetica CONTACT_SIZE CONTENT_WIDTH) y1 of
                  (ops, y') \<Rightarrow> (ops, y' - 4))
             else ([], y1));
          ops3 = [DrawLine left y2 right y2 1.5 DARK_BLUE];
          y3 = y2 - 16;
          (ops4, y4, inSkillsSection) = body_loop e (split_on NL (body r)) y3 False;
          skills = [];
          (ops5, y5) =
            (if inSkillsSection \<and> length skills > 0 then
               draw_lines (drawText (left + 20) BODY_SIZE Helvetica DARK_GRAY)
                 BODY_LINE_HEIGHT
                 (wrapText e (join [SPACE] skills) Helvetica BODY_SIZE (CONTENT_WIDTH - 20)) y4
             else ([], y4))
      in [AddPage 595 842] @ ops1 @ ops2 @ ops3 @ ops4 @ ops5)"

section \<open>Notions used in the statements\<close>

text \<open>A line is blank when nothing is left of it after \<open>trim\<close>.\<close>

definition nonblank :: "jsstring \<Rightarrow> bool" where
  "nonblank l = (trim l \<noteq> [])"

definition blank :: "jsstring \<Rightarrow> bool" where
  "blank l = (trim l = [])"

text \<open>A string without its spaces: what wrapping can neither add nor lose.\<close>

definition unspace :: "jsstring \<Rightarrow> jsstring" where
  "unspace s = filter (\<lambda>c. c \<noteq> SPACE) s"

text \<open>A line fits when its measured width is at most the maximal width.\<close>

definition fits :: "env \<Rightarrow> font \<Rightarrow> rat \<Rightarrow> rat \<Rightarrow> jsstring \<Rightarrow> bool" where
  "fits e fnt sz m l = (widthOfTextAtSize e fnt l sz \<le> m)"

text \<open>The invariant of the loop of \<open>wrapText\<close>: every line pushed so far, and the current
  line unless it is empty, has the property \<open>G\<close>.\<close>

definition wrap_inv :: "(jsstring \<Rightarrow> bool) \<Rightarrow> jsstring list \<times> jsstring \<Rightarrow> bool" where
  "wrap_inv G st = (list_all G (fst st) \<and> (snd st = [] \<or> G (snd st)))"

text \<open>A line that the loop of \<open>wrapText\<close>, run on the line alone, leaves in one piece.\<close>

definition stable_line :: "env \<Rightarrow> font \<Rightarrow> rat \<Rightarrow> rat \<Rightarrow> jsstring \<Rightarrow> bool" where
  "stable_line e fnt sz m l =
     (l \<noteq> [] \<and> foldl (wrap_step e fnt sz m) ([], []) (split_on SPACE l) = ([], l))"

text \<open>
  A font measure for the examples: every code unit is half as wide as the font size.
  The case conversions of the examples act on the ASCII letters only, as the conversions of
  the language do on ASCII strings.
\<close>

definition ascii_upper :: "jsstring \<Rightarrow> jsstring" where
  "ascii_upper s = map (\<lambda>c. if 97 \<le> c \<and> c \<le> 122 then c - 32 else c) s"

definition ascii_lower :: "jsstring \<Rightarrow> jsstring" where
  "ascii_lower s = map (\<lambda>c. if 65 \<le> c \<and> c \<le> 90 then c + 32 else c) s"

definition demo_env :: env where
  "demo_env = \<lparr> widthOfTextAtSize = (\<lambda>fnt s sz. of_nat (length s) * sz / 2),
                toUpperCase = ascii_upper, toLowerCase = ascii_lower \<rparr>"

text \<open>The texts of the \<open>DrawText\<close> calls of a trace, in order.\<close>

fun drawn_texts :: "op list \<Rightarrow> jsstring list" where
  "drawn_texts [] = []"
| "drawn_texts (DrawText str x y sz fnt col # ops) = str # drawn_texts ops"
| "drawn_texts (AddPage w h # ops) = drawn_texts ops"
| "drawn_texts (DrawLine x1 y1 x2 y2 th col # ops) = drawn_texts ops"

text \<open>
  The words of a text as the specification names them, delimited by white space of any
  kind: the maximal runs of code units that are not white space. The source itself splits
  at the space only (\<open>split_on SPACE\<close>).
\<close>

fun split_where :: "(nat \<Rightarrow> bool) \<Rightarrow> jsstring \<Rightarrow> jsstring list" where
  "split_where P [] = [[]]"
| "split_where P (c # cs) =
     (if P c then [] # split_where P cs
      else (case split_where P cs of
              w # ws \<Rightarrow> (c # w) # ws
            | [] \<Rightarrow> [[c]]))"

definition whitespace_words :: "jsstring \<Rightarrow> jsstring list" where
  "whitespace_words s = filter (\<lambda>w. w \<noteq> []) (split_where isWhiteSpace s)"

text \<open>Whether \<open>\*\*[^*]+\*\*\<close> matches somewhere in a string.\<close>

fun has_bold_span :: "jsstring \<Rightarrow> bool" where
  "has_bold_span [] = False"
| "has_bold_span (c # cs) = (case bold_at (c # cs) of Some m \<Rightarrow> True | None \<Rightarrow> has_bold_span cs)"

lemmas units = NL_def SPACE_def STAR_def HYPHEN_def SLASH_def COLON_def MIDDLE_DOT_def
  EN_DASH_def BULLET_def

section \<open>Splitting and joining\<close>

lemma split_on_nonempty: "split_on c s \<noteq> []"
  by (induction s) (auto split: list.splits)

lemma split_on_free: "w \<in> set (split_on c s) \<Longrightarrow> c \<notin> set w"
  by (induction s arbitrary: w) (auto split: list.splits if_splits)

lemma split_on_append: "split_on c (u @ c # w) = split_on c u @ split_on c w"
  by (induction u) (auto split: list.splits simp: split_on_nonempty)

lemma split_on_single: "c \<notin> set w \<Longrightarrow> split_on c w = [w]"
  by (induction w) auto

lemma concat_split_on: "concat (split_on SPACE s) = unspace s"
  by (induction s) (auto simp: unspace_def split: list.splits)

section \<open>Properties of wrapText\<close>

lemma foldl_invariant:
  assumes "P st" and "\<And>s w. P s \<Longrightarrow> w \<in> set ws \<Longrightarrow> P (f s w)"
  shows "P (foldl f st ws)"
  using assms by (induction ws arbitrary: st) simp_all

lemma wrap_step_eq:
  "wrap_step e fnt sz m (ls, cur) w =
     (if cur = [] then (ls, w)
      else if widthOfTextAtSize e fnt (cur @ SPACE # w) sz > m then (ls @ [cur], w)
      else (ls, cur @ SPACE # w))"
  by (simp add: wrap_step_def)

lemma wrap_inv_result:
  assumes "wrap_inv G (foldl (wrap_step e fnt sz m) ([], []) (split_on SPACE str))"
  shows "list_all G (wrapText e str fnt sz m)"
  using assms
  by (cases "foldl (wrap_step e fnt sz m) ([], []) (split_on SPACE str)")
     (auto simp: wrapText_def wrap_inv_def)

lemma wrap_step_fits:
  assumes "wrap_inv (fits e fnt sz m) s" and "w = [] \<or> fits e fnt sz m w"
  shows "wrap_inv (fits e fnt sz m) (wrap_step e fnt sz m s w)"
proof (cases s)
  case (Pair ls cur)
  with assms show ?thesis
    by (auto simp: wrap_step_eq wrap_inv_def fits_def)
qed

lemma stable_word: "w \<noteq> [] \<Longrightarrow> SPACE \<notin> set w \<Longrightarrow> stable_line e fnt sz m w"
  by (simp add: stable_line_def split_on_single wrap_step_eq)

lemma stable_extend:
  assumes "stable_line e fnt sz m cur" "SPACE \<notin> set w"
    and "\<not> widthOfTextAtSize e fnt (cur @ SPACE # w) sz > m"
  shows "stable_line e fnt sz m (cur @ SPACE # w)"
  using assms
  by (simp add: stable_line_def split_on_append split_on_single wrap_step_eq)

lemma wrap_step_stable:
  assumes "wrap_inv (stable_line e fnt sz m) s" and "SPACE \<notin> set w"
  shows "wrap_inv (stable_line e fnt sz m) (wrap_step e fnt sz m s w)"
proof (cases s)
  case (Pair ls cur)
  have w: "w = [] \<or> stable_line e fnt sz m w" using stable_word assms(2) by blast
  show ?thesis
  proof (cases "cur = []")
    case True
    with Pair assms(1) w show ?thesis by (simp add: wrap_step_eq wrap_inv_def)
  next
    case False
    with Pair assms(1) have st: "stable_line e fnt sz m cur" by (simp add: wrap_inv_def)
    show ?thesis
    proof (cases "widthOfTextAtSize e fnt (cur @ SPACE # w) sz > m")
      case True
      with Pair False assms(1) w st show ?thesis by (simp add: wrap_step_eq wrap_inv_def)
    next
      case nf: False
      from stable_extend [OF st assms(2) nf] Pair False nf assms(1)
      show ?thesis by (simp add: wrap_step_eq wrap_inv_def)
    qed
  qed
qed

lemma wrap_step_unspace:
  assumes "SPACE \<notin> set w"
  shows "unspace (concat (fst (wrap_step e fnt sz m s w)) @ snd (wrap_step e fnt sz m s w)) =
         unspace (concat (fst s) @ snd s) @ w"
proof (cases s)
  case (Pair ls cur)
  have "filter (\<lambda>c. c \<noteq> SPACE) w = w" using assms by (auto simp: filter_id_conv)
  with Pair show ?thesis by (simp add: wrap_step_eq unspace_def)
qed

lemma wrap_fold_unspace:
  assumes "\<forall>w\<in>set ws. SPACE \<notin> set w"
  shows "unspace (concat (fst (foldl (wrap_step e fnt sz m) s ws)) @
                  snd (foldl (wrap_step e fnt sz m) s ws)) =
         unspace (concat (fst s) @ snd s) @ concat ws"
  using assms
proof (induction ws arbitrary: s)
  case Nil
  show ?case by simp
next
  case (Cons w ws)
  have "SPACE \<notin> set w" using Cons.prems by simp
  from wrap_step_unspace [OF this, of e fnt sz m s] Cons.IH [of "wrap_step e fnt sz m s w"] Cons.prems
  show ?case by simp
qed

lemma wrapText_unspace: "unspace (concat (wrapText e str fnt sz maxWidth)) = unspace str"
proof -
  have "\<forall>w\<in>set (split_on SPACE str). SPACE \<notin> set w" using split_on_free by blast
  from wrap_fold_unspace [OF this, of e fnt sz maxWidth "([], [])"]
  show ?thesis
    by (cases "foldl (wrap_step e fnt sz maxWidth) ([], []) (split_on SPACE str)")
       (auto simp: wrapText_def concat_split_on unspace_def)
qed

text \<open>
  Claim C5, as the source has it. The source splits the text at the space and at no other
  white space. Whenever the maximal width is at least the measured width of every word so
  delimited (every piece of \<open>text.split(' ')\<close> that is not empty; a piece may hold a tab
  or a no-break space), every line that \<open>wrapText\<close> returns has a measured width of at
  most the maximal width.
\<close>

theorem wrapText_fits:
  assumes "\<forall>w\<in>set (split_on SPACE str). w \<noteq> [] \<longrightarrow> widthOfTextAtSize e fnt w sz \<le> maxWidth"
  shows "\<forall>l\<in>set (wrapText e str fnt sz maxWidth). widthOfTextAtSize e fnt l sz \<le> maxWidth"
proof -
  have "wrap_inv (fits e fnt sz maxWidth)
          (foldl (wrap_step e fnt sz maxWidth) ([], []) (split_on SPACE str))"
  proof (rule foldl_invariant)
    show "wrap_inv (fits e fnt sz maxWidth) ([], [])" by (simp add: wrap_inv_def)
  next
    fix s w
    assume "wrap_inv (fits e fnt sz maxWidth) s" and "w \<in> set (split_on SPACE str)"
    then show "wrap_inv (fits e fnt sz maxWidth) (wrap_step e fnt sz maxWidth s w)"
      using assms by (intro wrap_step_fits) (auto simp: fits_def)
  qed
  from wrap_inv_result [OF this] show ?thesis by (simp add: list_all_iff fits_def)
qed

theorem wrapText_fits_witness:
  "list_all (\<lambda>l. widthOfTextAtSize demo_env Helvetica l 10 \<le> 30)
     (wrapText demo_env (ascii ''aa bb cc'') Helvetica 10 30)"
  unfolding list_all_iff
  by (rule wrapText_fits) (simp add: ascii_def units demo_env_def)

text \<open>
  The claim as it was stated, for words delimited by white space of any kind, fails on
  \<open>a\<close>, tab, \<open>b\<close>: with a font size of 10 and a maximal width of 5 both words have the
  width 5 and fit, the source takes the text for one word, and the only line returned is
  the text itself, of width 15.
\<close>

theorem wrapText_fits_counterexample:
  "whitespace_words (ascii ''a'' @ 9 # ascii ''b'') = [ascii ''a'', ascii ''b''] \<and>
   list_all (\<lambda>w. widthOfTextAtSize demo_env Helvetica w 10 \<le> 5)
     (whitespace_words (ascii ''a'' @ 9 # ascii ''b'')) \<and>
   wrapText demo_env (ascii ''a'' @ 9 # ascii ''b'') Helvetica 10 5 = [ascii ''a'' @ 9 # ascii ''b''] \<and>
   widthOfTextAtSize demo_env Helvetica (ascii ''a'' @ 9 # ascii ''b'') 10 = 15 \<and>
   \<not> list_all (\<lambda>l. widthOfTextAtSize demo_env Helvetica l 10 \<le> 5)
       (wrapText demo_env (ascii ''a'' @ 9 # ascii ''b'') Helvetica 10 5)"
  by (simp add: whitespace_words_def isWhiteSpace_def wrapText_def wrap_step_eq ascii_def units
        demo_env_def)

text \<open>
  Claim C6. Wrapping again a line that \<open>wrapText\<close> has produced, with the same font, size
  and maximal width, returns that line alone and unchanged.
\<close>

theorem wrapText_stable:
  assumes "l \<in> set (wrapText e str fnt sz maxWidth)"
  shows "wrapText e l fnt sz maxWidth = [l]"
proof -
  have "wrap_inv (stable_line e fnt sz maxWidth)
          (foldl (wrap_step e fnt sz maxWidth) ([], []) (split_on SPACE str))"
  proof (rule foldl_invariant)
    show "wrap_inv (stable_line e fnt sz maxWidth) ([], [])" by (simp add: wrap_inv_def)
  next
    fix s w
    assume "wrap_inv (stable_line e fnt sz maxWidth) s" and "w \<in> set (split_on SPACE str)"
    then show "wrap_inv (stable_line e fnt sz maxWidth) (wrap_step e fnt sz maxWidth s w)"
      by (intro wrap_step_stable) (auto dest: split_on_free)
  qed
  from wrap_inv_result [OF this] assms have "stable_line e fnt sz maxWidth l"
    by (simp add: list_all_iff)
  then show ?thesis by (simp add: stable_line_def wrapText_def)
qed

theorem wrapText_stable_witness:
  "wrapText demo_env (ascii ''aa bb'') Helvetica 10 30 = [ascii ''aa bb'']"
  by (rule wrapText_stable [where str = "ascii ''aa bb cc''"])
     (simp add: wrapText_def wrap_step_eq ascii_def units demo_env_def)

section \<open>Properties of parseResume\<close>

lemma header_scan_short:
  "length info + length (filter nonblank ls) < 6 \<Longrightarrow>
   header_scan ls idx info = (info @ map trim (filter nonblank ls), 0)"
  by (induction ls arbitrary: idx info) (auto simp: nonblank_def Let_def)

lemma header_scan_full:
  "length info < 6 \<Longrightarrow> 6 \<le> length info + length (filter nonblank ls) \<Longrightarrow>
   \<exists>pre rest. ls = pre @ rest \<and>
      header_scan ls idx info = (info @ map trim (filter nonblank pre), idx + length pre) \<and>
      length info + length (filter nonblank pre) = 6"
proof (induction ls arbitrary: idx info)
  case Nil
  then show ?case by simp
next
  case (Cons l ls)
  show ?case
  proof (cases "nonblank l")
    case nb: True
    show ?thesis
    proof (cases "length info = 5")
      case True
      have "l # ls = [l] @ ls \<and>
            header_scan (l # ls) idx info = (info @ map trim (filter nonblank [l]), idx + length [l]) \<and>
            length info + length (filter nonblank [l]) = 6"
        using nb True by (simp add: nonblank_def Let_def)
      then show ?thesis by blast
    next
      case False
      with Cons.prems nb have "length (info @ [trim l]) < 6"
        and "6 \<le> length (info @ [trim l]) + length (filter nonblank ls)" by auto
      from Cons.IH [OF this, of "idx + 1"] obtain pre rest where
        pr: "ls = pre @ rest"
        "header_scan ls (idx + 1) (info @ [trim l]) =
           ((info @ [trim l]) @ map trim (filter nonblank pre), idx + 1 + length pre)"
        "length (info @ [trim l]) + length (filter nonblank pre) = 6" by blast
      have "l # ls = (l # pre) @ rest \<and>
            header_scan (l # ls) idx info =
              (info @ map trim (filter nonblank (l # pre)), idx + length (l # pre)) \<and>
            length info + length (filter nonblank (l # pre)) = 6"
        using pr nb False by (simp add: nonblank_def Let_def)
      then show ?thesis by blast
    qed
  next
    case b: False
    with Cons.prems have "length info < 6" and "6 \<le> length info + length (filter nonblank ls)"
      by auto
    from Cons.IH [OF this, of "idx + 1"] obtain pre rest where
      pr: "ls = pre @ rest"
      "header_scan ls (idx + 1) info = (info @ map trim (filter nonblank pre), idx + 1 + length pre)"
      "length info + length (filter nonblank pre) = 6" by blast
    have "l # ls = (l # pre) @ rest \<and>
          header_scan (l # ls) idx info =
            (info @ map trim (filter nonblank (l # pre)), idx + length (l # pre)) \<and>
          length info + length (filter nonblank (l # pre)) = 6"
      using pr b Cons.prems(1) by (simp add: nonblank_def Let_def)
    then show ?thesis by blast
  qed
qed

lemma skip_blank_drop:
  "drop (skip_blank lines b) lines = dropWhile blank (drop b lines)"
proof (induction lines b rule: skip_blank.induct)
  case (1 lines b)
  show ?case
  proof (cases "b < length lines \<and> trim (lines ! b) = []")
    case True
    then have bl: "blank (lines ! b)" by (simp add: blank_def)
    from True have d: "drop b lines = lines ! b # drop (b + 1) lines"
      by (simp add: Cons_nth_drop_Suc)
    from 1 True have ih: "drop (skip_blank lines (b + 1)) lines = dropWhile blank (drop (b + 1) lines)"
      by simp
    have "skip_blank lines b = skip_blank lines (b + 1)"
      using True by (subst skip_blank.simps) simp
    with ih d bl show ?thesis by simp
  next
    case False
    have sb: "skip_blank lines b = b" using False by (subst skip_blank.simps) auto
    show ?thesis
    proof (cases "b < length lines")
      case True
      with False have nb: "\<not> blank (lines ! b)" by (simp add: blank_def)
      from True have "drop b lines = lines ! b # drop (b + 1) lines"
        by (simp add: Cons_nth_drop_Suc)
      with nb sb show ?thesis by simp
    next
      case False
      with sb show ?thesis by simp
    qed
  qed
qed

lemma parseResume_body:
  "body (parseResume str) =
     join [NL] (dropWhile blank (drop (snd (header_scan (split_on NL str) 0 [])) (split_on NL str)))"
  by (simp add: parseResume_def Let_def split_def skip_blank_drop)

lemma parseResume_fields:
  "headline (parseResume str) = at_index (fst (header_scan (split_on NL str) 0 [])) 0"
  "name (parseResume str) = at_index (fst (header_scan (split_on NL str) 0 [])) 1"
  "email (parseResume str) = at_index (fst (header_scan (split_on NL str) 0 [])) 2"
  "phone (parseResume str) = at_index (fst (header_scan (split_on NL str) 0 [])) 3"
  "location (parseResume str) = at_index (fst (header_scan (split_on NL str) 0 [])) 4"
  "linkedin (parseResume str) = at_index (fst (header_scan (split_on NL str) 0 [])) 5"
  by (simp_all add: parseResume_def Let_def split_def)

lemma filter_dropWhile_blank: "filter nonblank (dropWhile blank xs) = filter nonblank xs"
  by (induction xs) (simp_all add: blank_def nonblank_def)

text \<open>
  Claim C7. When the input has at least six lines that are not blank, the six header
  fields are the first six such lines, trimmed, in the order headline, name, email, phone,
  location, linkedin, whatever blank lines stand before or between them; and the body is
  the input from the seventh line that is not blank on (the lines after the six, joined by
  newlines; the empty string when there is no seventh).
\<close>

theorem parseResume_six:
  assumes "6 \<le> length (filter nonblank (split_on NL str))"
  shows "headline (parseResume str) = Some (trim (filter nonblank (split_on NL str) ! 0)) \<and>
         name (parseResume str) = Some (trim (filter nonblank (split_on NL str) ! 1)) \<and>
         email (parseResume str) = Some (trim (filter nonblank (split_on NL str) ! 2)) \<and>
         phone (parseResume str) = Some (trim (filter nonblank (split_on NL str) ! 3)) \<and>
         location (parseResume str) = Some (trim (filter nonblank (split_on NL str) ! 4)) \<and>
         linkedin (parseResume str) = Some (trim (filter nonblank (split_on NL str) ! 5)) \<and>
         (\<exists>pre rest. split_on NL str = pre @ rest \<and> length (filter nonblank pre) = 6 \<and>
            (rest = [] \<or> nonblank (hd rest)) \<and> body (parseResume str) = join [NL] rest)"
proof -
  from header_scan_full [of "[]" "split_on NL str" 0] assms obtain pre rest where
    pr: "split_on NL str = pre @ rest"
    "header_scan (split_on NL str) 0 [] = (map trim (filter nonblank pre), length pre)"
    "length (filter nonblank pre) = 6" by auto
  have nth: "\<And>i. i < 6 \<Longrightarrow>
      at_index (map trim (filter nonblank pre)) i = Some (trim (filter nonblank (split_on NL str) ! i))"
    using pr(1,3) by (simp add: at_index_def nth_append)
  have b: "body (parseResume str) = join [NL] (dropWhile blank rest)"
    using pr(1,2) by (simp add: parseResume_body)
  have "split_on NL str = (pre @ takeWhile blank rest) @ dropWhile blank rest \<and>
        length (filter nonblank (pre @ takeWhile blank rest)) = 6 \<and>
        (dropWhile blank rest = [] \<or> nonblank (hd (dropWhile blank rest))) \<and>
        body (parseResume str) = join [NL] (dropWhile blank rest)"
  proof (intro conjI)
    show "split_on NL str = (pre @ takeWhile blank rest) @ dropWhile blank rest"
      using pr(1) by simp
    have "filter nonblank (takeWhile blank rest) = []"
      by (auto simp: filter_empty_conv blank_def nonblank_def dest: set_takeWhileD)
    then show "length (filter nonblank (pre @ takeWhile blank rest)) = 6" using pr(3) by simp
    show "dropWhile blank rest = [] \<or> nonblank (hd (dropWhile blank rest))"
      using hd_dropWhile [of blank rest] by (auto simp: blank_def nonblank_def)
    show "body (parseResume str) = join [NL] (dropWhile blank rest)" by (rule b)
  qed
  then have ex: "\<exists>pre rest. split_on NL str = pre @ rest \<and> length (filter nonblank pre) = 6 \<and>
            (rest = [] \<or> nonblank (hd rest)) \<and> body (parseResume str) = join [NL] rest"
    by blast
  show ?thesis
    using ex nth by (simp add: parseResume_fields pr(2))
qed

theorem parseResume_six_witness:
  "headline (parseResume (ascii ''\<newline>H\<newline> \<newline>N\<newline>E\<newline>P\<newline>L\<newline>  K \<newline>\<newline>B'')) = Some (ascii ''H'') \<and>
   name (parseResume (ascii ''\<newline>H\<newline> \<newline>N\<newline>E\<newline>P\<newline>L\<newline>  K \<newline>\<newline>B'')) = Some (ascii ''N'') \<and>
   linkedin (parseResume (ascii ''\<newline>H\<newline> \<newline>N\<newline>E\<newline>P\<newline>L\<newline>  K \<newline>\<newline>B'')) = Some (ascii ''K'')"
  using parseResume_six [of "ascii ''\<newline>H\<newline> \<newline>N\<newline>E\<newline>P\<newline>L\<newline>  K \<newline>\<newline>B''"]
  by (simp add: nonblank_def trim_def isWhiteSpace_def ascii_def units)

text \<open>
  Claim C10. When the input has at least one and fewer than six lines that are not blank,
  \<open>bodyStart\<close> stays 0, so the body is the input from its first line that is not blank on,
  joined by newlines: the lines that fill the header fields are in the body again, the
  headline being its first line.
\<close>

theorem parseResume_short:
  assumes "1 \<le> length (filter nonblank (split_on NL str))"
    and "length (filter nonblank (split_on NL str)) < 6"
  shows "snd (header_scan (split_on NL str) 0 []) = 0 \<and>
         body (parseResume str) = join [NL] (dropWhile blank (split_on NL str)) \<and>
         [headline (parseResume str), name (parseResume str), email (parseResume str),
          phone (parseResume str), location (parseResume str), linkedin (parseResume str)] =
           map (at_index (map trim (filter nonblank (dropWhile blank (split_on NL str))))) [0, 1, 2, 3, 4, 5] \<and>
         headline (parseResume str) = Some (trim (hd (dropWhile blank (split_on NL str))))"
proof -
  have hs: "header_scan (split_on NL str) 0 [] = (map trim (filter nonblank (split_on NL str)), 0)"
    using header_scan_short [of "[]" "split_on NL str" 0] assms(2) by simp
  have fe: "filter nonblank (dropWhile blank (split_on NL str)) = filter nonblank (split_on NL str)"
    by (rule filter_dropWhile_blank)
  have ne: "dropWhile blank (split_on NL str) \<noteq> []"
  proof
    assume "dropWhile blank (split_on NL str) = []"
    with fe have "filter nonblank (split_on NL str) = []" by simp
    with assms(1) show False by simp
  qed
  then have nbh: "nonblank (hd (dropWhile blank (split_on NL str)))"
    using hd_dropWhile [of blank "split_on NL str"] by (simp add: blank_def nonblank_def)
  have hd: "filter nonblank (split_on NL str) ! 0 = hd (dropWhile blank (split_on NL str))"
  proof -
    obtain x xs where c: "dropWhile blank (split_on NL str) = x # xs" using ne by (cases "dropWhile blank (split_on NL str)") auto
    with nbh fe [symmetric] show ?thesis by simp
  qed
  have nn: "filter nonblank (split_on NL str) \<noteq> []"
  proof
    assume "filter nonblank (split_on NL str) = []"
    with assms(1) show False by simp
  qed
  show ?thesis
    using hs fe hd nn by (simp add: parseResume_body parseResume_fields at_index_def)
qed

theorem parseResume_short_witness:
  "body (parseResume (ascii ''\<newline>A\<newline>\<newline>B'')) = ascii ''A\<newline>\<newline>B'' \<and>
   headline (parseResume (ascii ''\<newline>A\<newline>\<newline>B'')) = Some (ascii ''A'') \<and>
   name (parseResume (ascii ''\<newline>A\<newline>\<newline>B'')) = Some (ascii ''B'')"
  using parseResume_short [of "ascii ''\<newline>A\<newline>\<newline>B''"]
  by (simp add: nonblank_def blank_def trim_def isWhiteSpace_def ascii_def units at_index_def)

section \<open>Properties of formatDate\<close>

lemma map_unmatched:
  "list_all (\<lambda>p. \<not> matches_mm_yyyy p) ps \<Longrightarrow>
   map (\<lambda>part. if matches_mm_yyyy part then format_mm_yyyy part else part) ps = ps"
  by (induction ps) simp_all

text \<open>
  Claim C3, as the source has it. \<open>formatDate\<close> is a total function: no operation it uses
  can throw, and a month outside 01..12 prints as \<open>undefined\<close>. For an input of
  unrecognized shape (neither the input nor any of its trimmed parts between dashes passes
  the test for two digits, a slash and four digits) the result is the input unchanged when
  the input holds neither a hyphen nor an en dash; when it holds one, the result is the
  parts, trimmed, joined again by an en dash between two spaces.
\<close>

theorem formatDate_unrecognized:
  assumes "\<not> matches_mm_yyyy dateStr"
    and "list_all (\<lambda>p. \<not> matches_mm_yyyy p) (map trim (split_dash dateStr))"
  shows "formatDate dateStr =
           (if includes_unit dateStr EN_DASH \<or> includes_unit dateStr HYPHEN
            then join [SPACE, EN_DASH, SPACE] (map trim (split_dash dateStr))
            else dateStr)"
proof -
  have "map (\<lambda>part. if matches_mm_yyyy part then format_mm_yyyy part else part)
          (map trim (split_dash dateStr)) = map trim (split_dash dateStr)"
    by (rule map_unmatched) (rule assms(2))
  with assms(1) show ?thesis by (simp only: formatDate_def if_False)
qed

theorem formatDate_unrecognized_witness:
  "formatDate (ascii ''Present'') = ascii ''Present'' \<and>
   formatDate (ascii ''Jan 2020 - Present'') = ascii ''Jan 2020 '' @ [EN_DASH] @ ascii '' Present''"
  using formatDate_unrecognized [of "ascii ''Present''"]
    formatDate_unrecognized [of "ascii ''Jan 2020 - Present''"]
  by (simp add: includes_unit_def ascii_def units trim_def isWhiteSpace_def matches_mm_yyyy_def)

text \<open>
  The claim as it was stated, that such an input comes back unchanged, fails on a period of
  two years: no part has the shape, and the hyphen comes back as an en dash.
\<close>

theorem formatDate_unrecognized_counterexample:
  "\<not> matches_mm_yyyy (ascii ''2019 - 2021'') \<and>
   list_all (\<lambda>p. \<not> matches_mm_yyyy p) (map trim (split_dash (ascii ''2019 - 2021''))) \<and>
   formatDate (ascii ''2019 - 2021'') = ascii ''2019 '' @ [EN_DASH] @ ascii '' 2021'' \<and>
   formatDate (ascii ''2019 - 2021'') \<noteq> ascii ''2019 - 2021''"
  by (simp add: formatDate_def includes_unit_def ascii_def units trim_def isWhiteSpace_def
        matches_mm_yyyy_def)

section \<open>Properties of drawTextWithBold\<close>

text \<open>
  Without a match the split returns the line as its only part, and a line that does not
  both start and end with two asterisks is drawn as one run in the plain font.
\<close>

lemma split_bold_none: "\<not> has_bold_span s \<Longrightarrow> split_bold cur s = [cur @ s]"
  by (induction s arbitrary: cur) (auto split: option.splits)

lemma plain_line_drawn_plain:
  assumes "\<not> has_bold_span s" and "\<not> (startsWith s [STAR, STAR] \<and> endsWith s [STAR, STAR])"
  shows "drawTextWithBold e s x y fnt fntBold sz col = [DrawText s x y sz fnt col]"
  using assms by (auto simp: drawTextWithBold_def split_bold_none)

text \<open>
  Claim C8, evaluated on the source. On a line in which the pattern of a bold span matches
  nowhere, the split returns the line as its only part; that part is still drawn in the
  bold font, without its first two and last two code units, when it starts and ends with
  two asterisks. A line of two asterisks is drawn as the empty text in bold, and
  \<open>**a*b**\<close> as \<open>a*b\<close> in bold.
\<close>

theorem lone_markers_drawn_bold:
  "\<not> has_bold_span [STAR, STAR] \<and>
   drawTextWithBold e [STAR, STAR] x y Helvetica HelveticaBold sz col =
     [DrawText [] x y sz HelveticaBold col] \<and>
   \<not> has_bold_span (ascii ''**a*b**'') \<and>
   drawTextWithBold e (ascii ''**a*b**'') x y Helvetica HelveticaBold sz col =
     [DrawText (ascii ''a*b'') x y sz HelveticaBold col]"
  by (simp add: drawTextWithBold_def ascii_def bold_at_def units startsWith_def endsWith_def
        slice_2_minus2_def)

section \<open>Properties of the body loop\<close>

lemma dropWhile_hd_self: "xs = [] \<or> \<not> P (hd xs) \<Longrightarrow> dropWhile P xs = xs"
  by (cases xs) auto

lemma last_dropWhile: "dropWhile P xs \<noteq> [] \<Longrightarrow> last (dropWhile P xs) = last xs"
  by (induction xs) (auto split: if_splits)

lemma trim_ends:
  "trim s = [] \<or> (\<not> isWhiteSpace (hd (trim s)) \<and> \<not> isWhiteSpace (last (trim s)))"
proof (cases "trim s = []")
  case True
  then show ?thesis by simp
next
  case False
  let ?t = "dropWhile isWhiteSpace s"
  let ?u = "dropWhile isWhiteSpace (rev ?t)"
  from False have u: "?u \<noteq> []" by (simp add: trim_def)
  have t: "?t \<noteq> []"
  proof
    assume e: "?t = []"
    have "?u = []" unfolding e by simp
    with u show False by simp
  qed
  have "last (trim s) = hd ?u" using u by (simp add: trim_def last_rev)
  moreover have "\<not> isWhiteSpace (hd ?u)" using u hd_dropWhile by blast
  moreover have "hd (trim s) = last ?u" using u by (simp add: trim_def hd_rev)
  moreover have "last ?u = hd ?t" using last_dropWhile [OF u] t by (simp add: last_rev)
  moreover have "\<not> isWhiteSpace (hd ?t)" using t hd_dropWhile by blast
  ultimately show ?thesis by simp
qed

lemma trim_trim: "trim (trim s) = trim s"
proof -
  let ?u = "trim s"
  from trim_ends [of s] have a: "?u = [] \<or> \<not> isWhiteSpace (hd ?u)"
    and b: "rev ?u = [] \<or> \<not> isWhiteSpace (hd (rev ?u))"
    by (auto simp: hd_rev)
  have "trim ?u = rev (dropWhile isWhiteSpace (rev (dropWhile isWhiteSpace ?u)))"
    by (simp only: trim_def)
  also have "\<dots> = rev (dropWhile isWhiteSpace (rev ?u))"
    by (simp only: dropWhile_hd_self [of "trim s" isWhiteSpace, OF a])
  also have "\<dots> = rev (rev ?u)"
    by (simp only: dropWhile_hd_self [of "rev (trim s)" isWhiteSpace, OF b])
  finally show ?thesis by simp
qed

lemma drawn_texts_append: "drawn_texts (xs @ ys) = drawn_texts xs @ drawn_texts ys"
  by (induction xs rule: drawn_texts.induct) simp_all

lemma drawn_texts_roll: "drawn_texts (fst (roll y)) = []"
  by (simp add: roll_def)

lemma drawn_texts_draw_lines:
  "drawn_texts (fst (draw_lines (drawText x sz fnt col) h ls y)) = ls"
proof (induction ls arbitrary: y)
  case Nil
  show ?case by simp
next
  case (Cons l ls)
  from Cons [of "snd (roll (y - h))"] drawn_texts_roll [of "y - h"]
  show ?case
    by (simp add: split_def drawn_texts_append drawText_def)
qed

lemma drawn_texts_draw_job:
  "drawn_texts (fst (draw_job e jobTitle companyName period y)) =
     wrapText e (trim jobTitle) HelveticaBold (BODY_SIZE + 1) (CONTENT_WIDTH - 10) @
     wrapText e (trim companyName) Helvetica BODY_SIZE (CONTENT_WIDTH - 10) @
     wrapText e (formatDate (trim period)) Helvetica (BODY_SIZE - 1) (CONTENT_WIDTH - 10)"
  by (simp add: draw_job_def split_def drawn_texts_append drawn_texts_draw_lines)

text \<open>
  Claim C4. The line \<open>Role at Company: 06/2022 - Current\<close> does not end with a colon,
  passes the test of a job line, and the pattern gives the title \<open>Role\<close>, the company
  \<open>Company\<close> and the period \<open>06/2022 - Current\<close>; \<open>formatDate\<close> turns the period into
  \<open>Jun 2022\<close>, an en dash between two spaces, \<open>Current\<close>; and the texts the loop draws for
  the line are the title, the company and the wrapped formatted period.
\<close>

theorem job_line_scenario:
  "\<not> endsWith (ascii ''Role at Company: 06/2022 - Current'') [COLON] \<and>
   isJobExperience (ascii ''Role at Company: 06/2022 - Current'') \<and>
   job_match (ascii ''Role at Company: 06/2022 - Current'') =
     Some (ascii ''Role'', ascii ''Company'', ascii ''06/2022 - Current'') \<and>
   formatDate (ascii ''06/2022 - Current'') = ascii ''Jun 2022 '' @ [EN_DASH] @ ascii '' Current'' \<and>
   drawn_texts (fst (body_line e (ascii ''Role at Company: 06/2022 - Current'') y inSkillsSection)) =
     [ascii ''Role'', ascii ''Company''] @
     wrapText e (ascii ''Jun 2022 '' @ [EN_DASH] @ ascii '' Current'') Helvetica (BODY_SIZE - 1)
       (CONTENT_WIDTH - 10)"
proof -
  let ?l = "ascii ''Role at Company: 06/2022 - Current''"
  have t: "trim ?l = ?l" "?l \<noteq> []"
    by (simp_all add: trim_def ascii_def isWhiteSpace_def)
  have a: "\<not> endsWith ?l [COLON]" by (simp add: endsWith_def ascii_def units)
  have b: "isJobExperience ?l"
    by (simp add: ascii_def units startsWith_def AT_def rx_after_at_def isDot_def)
  have c: "job_match ?l = Some (ascii ''Role'', ascii ''Company'', ascii ''06/2022 - Current'')"
    by (simp add: ascii_def units startsWith_def AT_def isDot_def job_match_def rx_rest_def
          isWhiteSpace_def)
  have tr: "trim (ascii ''Role'') = ascii ''Role''" "trim (ascii ''Company'') = ascii ''Company''"
    "trim (ascii ''06/2022 - Current'') = ascii ''06/2022 - Current''"
    by (simp_all add: trim_def ascii_def isWhiteSpace_def)
  have d: "formatDate (ascii ''06/2022 - Current'') = ascii ''Jun 2022 '' @ [EN_DASH] @ ascii '' Current''"
    by (simp add: formatDate_def includes_unit_def ascii_def units trim_def isWhiteSpace_def
          matches_mm_yyyy_def isDigit_def format_mm_yyyy_def parseInt_def month_text_def monthNames_def)
  have w: "\<And>fnt sz m. wrapText e (ascii ''Role'') fnt sz m = [ascii ''Role'']"
          "\<And>fnt sz m. wrapText e (ascii ''Company'') fnt sz m = [ascii ''Company'']"
    by (simp_all add: wrapText_def wrap_step_eq ascii_def units)
  have f: "drawn_texts (fst (body_line e ?l y inSkillsSection)) =
     [ascii ''Role'', ascii ''Company''] @
     wrapText e (ascii ''Jun 2022 '' @ [EN_DASH] @ ascii '' Current'') Helvetica (BODY_SIZE - 1)
       (CONTENT_WIDTH - 10)"
    by (simp add: body_line_def body_branch_def t a b c split_def drawn_texts_append
          drawn_texts_roll drawn_texts_draw_job tr d w)
  from a b c d f show ?thesis by (intro conjI)
qed

text \<open>
  On a trimmed line without a line terminator the loose test implies a match of the strict
  pattern: only a line terminator inside the line can separate the two.
\<close>

lemma rx_space_rest_total:
  "ds \<noteq> [] \<Longrightarrow> list_all isDot ds \<Longrightarrow> rx_space_rest ds \<noteq> None"
  by (induction ds) (auto simp: rx_rest_def split: option.splits)

lemma rx_company_total:
  "isDot c \<Longrightarrow> list_all isDot cs \<Longrightarrow> rx_colon_tail cs \<Longrightarrow> rx_company acc (c # cs) \<noteq> None"
proof (induction cs arbitrary: c acc)
  case Nil
  then show ?case by simp
next
  case (Cons d ds)
  show ?case
  proof (cases "d = COLON \<and> ds \<noteq> []")
    case True
    with Cons.prems(2) have "rx_space_rest ds \<noteq> None" by (intro rx_space_rest_total) simp_all
    with True Cons.prems(1) show ?thesis by auto
  next
    case False
    with Cons.prems(3) have "rx_colon_tail ds" by (auto split: list.splits)
    with Cons.IH [of d "acc @ [c]"] Cons.prems(2)
    have "rx_company (acc @ [c]) (d # ds) \<noteq> None" by simp
    with Cons.prems(1) show ?thesis by (auto split: option.splits)
  qed
qed

lemma rx_title_total:
  "isDot c \<Longrightarrow> list_all isDot cs \<Longrightarrow> isJobExperience cs \<Longrightarrow> rx_title acc (c # cs) \<noteq> None"
proof (induction cs arbitrary: c acc)
  case Nil
  then show ?case by simp
next
  case (Cons d ds)
  define t where "t = drop 4 (d # ds)"
  have step: "rx_title acc (c # d # ds) =
      (case (if startsWith (d # ds) AT then rx_company [] t else None) of
         Some (companyName, period) \<Rightarrow> Some (acc @ [c], companyName, period)
       | None \<Rightarrow> rx_title (acc @ [c]) (d # ds))"
    using Cons.prems(1) unfolding t_def by (simp only: rx_title.simps if_True)
  have je: "isJobExperience (d # ds) = ((startsWith (d # ds) AT \<and> rx_after_at t) \<or> isJobExperience ds)"
    unfolding t_def by (simp only: isJobExperience.simps)
  show ?case
  proof (cases "startsWith (d # ds) AT \<and> rx_after_at t")
    case True
    then obtain x xs where dr: "t = x # xs" and ct: "rx_colon_tail xs"
      by (auto simp: rx_after_at_def split: list.splits)
    have "list_all isDot t"
      using Cons.prems(2) unfolding t_def list_all_iff by (blast dest: in_set_dropD)
    with dr have "isDot x" "list_all isDot xs" by simp_all
    from rx_company_total [OF this ct, of "[]"] dr
    obtain r where "rx_company [] t = Some r" by auto
    with True show ?thesis by (simp add: step split_def del: rx_title.simps)
  next
    case False
    with Cons.prems(3) je have "isJobExperience ds" by simp
    with Cons.IH [of d "acc @ [c]"] Cons.prems(2)
    have "rx_title (acc @ [c]) (d # ds) \<noteq> None" by simp
    then show ?thesis by (simp add: step split: option.splits del: rx_title.simps)
  qed
qed

lemma strict_match_of_loose:
  assumes "trim line = line" and "list_all isDot line" and "isJobExperience line"
  shows "job_match line \<noteq> None"
proof (cases line)
  case Nil
  with assms(3) show ?thesis by simp
next
  case (Cons c cs)
  from trim_ends [of line] assms(1) Cons have "\<not> isWhiteSpace c" by auto
  then have "\<not> startsWith line AT"
    using Cons by (auto simp: startsWith_def AT_def isWhiteSpace_def units)
  with assms(3) Cons have je: "isJobExperience cs" by auto
  from assms(2) Cons have "isDot c" "list_all isDot cs" by simp_all
  from rx_title_total [OF this je, of "[]"] show ?thesis
    unfolding job_match_def Cons .
qed

text \<open>
  Claim C2, evaluated on the source. The line \<open>a\<close>, carriage return, \<open>b at C: D\<close> is
  trimmed, does not end with a colon and passes the loose test, and the strict pattern does
  not match it (its first group cannot cross the carriage return). The \<open>else\<close> branch that
  draws body text belongs to the loose test, so the turn of the loop draws nothing for the
  line and leaves the cursor where it was.
\<close>

theorem unmatched_job_line_dropped:
  "trim (ascii ''a'' @ 13 # ascii ''b at C: D'') = ascii ''a'' @ 13 # ascii ''b at C: D'' \<and>
   \<not> endsWith (ascii ''a'' @ 13 # ascii ''b at C: D'') [COLON] \<and>
   isJobExperience (ascii ''a'' @ 13 # ascii ''b at C: D'') \<and>
   job_match (ascii ''a'' @ 13 # ascii ''b at C: D'') = None \<and>
   body_line e (ascii ''a'' @ 13 # ascii ''b at C: D'') 700 False = ([], 700, False) \<and>
   drawn_texts (fst (body_line e (ascii ''a'' @ 13 # ascii ''b at C: D'') y inSkillsSection)) = []"
proof -
  let ?l = "ascii ''a'' @ 13 # ascii ''b at C: D''"
  have t: "trim ?l = ?l" "?l \<noteq> []"
    by (simp_all add: trim_def ascii_def isWhiteSpace_def)
  have a: "\<not> endsWith ?l [COLON]" by (simp add: endsWith_def ascii_def units)
  have b: "isJobExperience ?l"
    by (simp add: ascii_def units startsWith_def AT_def rx_after_at_def isDot_def)
  have c: "job_match ?l = None"
    by (simp add: ascii_def units startsWith_def AT_def isDot_def job_match_def)
  have d: "body_line e ?l 700 False = ([], 700, False)"
    by (simp add: body_line_def body_branch_def t a b c roll_def MARGIN_BOTTOM_def)
  have f: "drawn_texts (fst (body_line e ?l y inSkillsSection)) = []"
    by (simp add: body_line_def body_branch_def t a b c split_def drawn_texts_roll)
  from t(1) a b c d f show ?thesis by (intro conjI)
qed

text \<open>
  Claim C9. For a line that, trimmed, starts with the middle dot, does not end with a colon
  and does not pass the test of a job line, the texts drawn are the lines into which
  \<open>wrapText\<close> breaks the whole trimmed line: apart from spaces they are the trimmed line,
  code unit by code unit, and they begin with the middle dot.
\<close>

theorem skills_category_text:
  assumes "startsWith (trim rawLine) [MIDDLE_DOT]"
    and "\<not> endsWith (trim rawLine) [COLON]"
    and "\<not> isJobExperience (trim rawLine)"
  shows "drawn_texts (fst (body_line e rawLine y inSkillsSection)) =
           wrapText e (trim rawLine) HelveticaBold (BODY_SIZE + 1) (CONTENT_WIDTH - 20) \<and>
         unspace (concat (drawn_texts (fst (body_line e rawLine y inSkillsSection)))) =
           unspace (trim rawLine) \<and>
         hd (unspace (concat (drawn_texts (fst (body_line e rawLine y inSkillsSection))))) = MIDDLE_DOT"
proof -
  from assms(1) have ne: "trim rawLine \<noteq> []" by (auto simp: startsWith_def)
  from assms(1) have h: "hd (unspace (trim rawLine)) = MIDDLE_DOT"
    by (cases "trim rawLine") (auto simp: startsWith_def unspace_def units)
  have d: "drawn_texts (fst (body_line e rawLine y inSkillsSection)) =
           wrapText e (trim rawLine) HelveticaBold (BODY_SIZE + 1) (CONTENT_WIDTH - 20)"
    using assms ne
    by (simp add: body_line_def body_branch_def Let_def split_def trim_trim
          drawn_texts_append drawn_texts_roll drawn_texts_draw_lines)
  show ?thesis
    by (simp only: d wrapText_unspace h)
qed

theorem skills_category_text_witness:
  "drawn_texts (fst (body_line demo_env (MIDDLE_DOT # ascii '' Frontend'') 700 False)) =
     [MIDDLE_DOT # ascii '' Frontend'']"
  using skills_category_text [of "MIDDLE_DOT # ascii '' Frontend''" demo_env 700 False]
  by (simp add: trim_def isWhiteSpace_def ascii_def units startsWith_def endsWith_def AT_def
        wrapText_def wrap_step_eq demo_env_def BODY_SIZE_def CONTENT_WIDTH_def PAGE_WIDTH_def
        MARGIN_LEFT_def MARGIN_RIGHT_def)

section \<open>The page check and blank lines\<close>

text \<open>
  The check at the end of a turn leaves the cursor at or above the bottom margin, for every
  line that is not blank.
\<close>

lemma roll_cursor: "MARGIN_BOTTOM \<le> snd (roll y)"
  by (simp add: roll_def MARGIN_BOTTOM_def PAGE_HEIGHT_def MARGIN_TOP_def)

lemma body_line_cursor:
  "trim rawLine \<noteq> [] \<Longrightarrow> MARGIN_BOTTOM \<le> fst (snd (body_line e rawLine y inSkillsSection))"
  by (simp add: body_line_def Let_def split_def roll_cursor)


lemma split_on_replicate: "split_on c (replicate n c @ s) = replicate n [] @ split_on c s"
  by (induction n) simp_all

lemma join_split_on: "join [c] (split_on c s) = s"
proof (induction s)
  case Nil
  show ?case by simp
next
  case (Cons a s)
  obtain w ws where sp: "split_on c s = w # ws"
    using split_on_nonempty [of c s] by (cases "split_on c s") auto
  with Cons show ?case by (cases ws) auto
qed

lemma body_loop_blank:
  "body_loop e (replicate n [] @ ls) y sk = body_loop e ls (y - 6 * of_nat n) sk"
proof (induction n arbitrary: y)
  case 0
  show ?case by simp
next
  case (Suc n)
  have "body_line e [] y sk = ([], y - 6, sk)" by (simp add: body_line_def trim_def)
  with Suc [of "y - 6"] show ?case by (simp add: algebra_simps)
qed

lemma overflow_lines:
  "split_on NL (ascii ''A'' @ replicate 121 NL @ ascii ''B'') =
     ascii ''A'' # replicate 120 [] @ [ascii ''B'']"
proof -
  have "split_on NL (replicate 121 NL @ ascii ''B'') = replicate 121 [] @ [ascii ''B'']"
    by (simp only: split_on_replicate) (simp add: ascii_def units)
  also have "replicate 121 [] @ [ascii ''B''] = ([] :: jsstring) # replicate 120 [] @ [ascii ''B'']"
  proof -
    have "(121::nat) = Suc 120" by simp
    then show ?thesis by (simp only: replicate.simps append_Cons)
  qed
  finally show ?thesis by (simp add: ascii_def units)
qed

lemma overflow_parse:
  "parseResume (ascii ''A'' @ replicate 121 NL @ ascii ''B'') =
     \<lparr> headline = Some (ascii ''A''), name = Some (ascii ''B''), email = None, phone = None,
       location = None, linkedin = None, body = ascii ''A'' @ replicate 121 NL @ ascii ''B'' \<rparr>"
proof -
  let ?t = "ascii ''A'' @ replicate 121 NL @ ascii ''B''"
  have nbA: "nonblank (ascii ''A'')" and nbB: "nonblank (ascii ''B'')" and b: "\<not> nonblank []"
    by (simp_all add: nonblank_def trim_def ascii_def isWhiteSpace_def)
  have f: "filter nonblank (split_on NL ?t) = [ascii ''A'', ascii ''B'']"
    unfolding overflow_lines using nbA nbB b by simp
  have hs: "header_scan (split_on NL ?t) 0 [] = ([trim (ascii ''A''), trim (ascii ''B'')], 0)"
    using header_scan_short [of "[]" "split_on NL ?t" 0] f by simp
  have tr: "trim (ascii ''A'') = ascii ''A''" "trim (ascii ''B'') = ascii ''B''"
    by (simp_all add: trim_def ascii_def isWhiteSpace_def)
  have dw: "dropWhile blank (split_on NL ?t) = split_on NL ?t"
    unfolding overflow_lines using nbA by (simp add: blank_def nonblank_def)
  have bd: "body (parseResume ?t) = ?t"
    by (simp only: parseResume_body hs snd_conv drop_0 dw join_split_on)
  show ?thesis
    using bd by (simp add: parseResume_def Let_def split_def hs tr at_index_def)
qed

text \<open>
  Claim C1, evaluated on the source. The input is the line \<open>A\<close>, 120 blank lines and the
  line \<open>B\<close>. It has two lines that are not blank, so \<open>A\<close> is the headline, \<open>B\<close> the name,
  and the body is the whole input. Each blank line moves the cursor down by 6 and continues
  with the next line, past the check at the end of the turn; \<open>B\<close> is then drawn at
  \<open>y = -13/5\<close>, below the bottom margin of 50 and below the page, on the first page: a
  page is added only after that draw. The trace does not depend on the font measure.
\<close>

theorem blank_lines_overflow:
  "generateResumePdf
     \<lparr> widthOfTextAtSize = wd, toUpperCase = ascii_upper, toLowerCase = ascii_lower \<rparr>
     (ascii ''A'' @ replicate 121 NL @ ascii ''B'') =
   [AddPage 595 842,
    DrawText (ascii ''B'') 50 770 24 HelveticaBold DARK_BLUE,
    DrawLine 50 (3744 / 5) 545 (3744 / 5) (3 / 2) DARK_BLUE,
    DrawText (ascii ''A'') 60 (3664 / 5) 11 Helvetica BLACK,
    DrawText (ascii ''B'') 60 (- (13 / 5)) 11 Helvetica BLACK,
    AddPage 595 842]"
proof -
  let ?e = "\<lparr> widthOfTextAtSize = wd, toUpperCase = ascii_upper, toLowerCase = ascii_lower \<rparr>"
  have w: "\<And>fnt sz m. wrapText ?e (ascii ''A'') fnt sz m = [ascii ''A'']"
          "\<And>fnt sz m. wrapText ?e (ascii ''B'') fnt sz m = [ascii ''B'']"
    by (simp_all add: wrapText_def wrap_step_eq ascii_def units)
  have d: "\<And>s x y. s = ascii ''A'' \<or> s = ascii ''B'' \<Longrightarrow>
      drawTextWithBold ?e s x y Helvetica HelveticaBold 11 BLACK = [DrawText s x y 11 Helvetica BLACK]"
    by (auto simp: drawTextWithBold_def ascii_def bold_at_def units startsWith_def endsWith_def)
  have cls: "\<And>s. s = ascii ''A'' \<or> s = ascii ''B'' \<Longrightarrow>
      s \<noteq> [] \<and> trim s = s \<and> \<not> endsWith s [COLON] \<and> \<not> isJobExperience s \<and> \<not> startsWith s [MIDDLE_DOT]"
    by (auto simp: trim_def ascii_def isWhiteSpace_def endsWith_def startsWith_def units AT_def)
  have la: "\<And>y. 50 \<le> y - 77 / 5 \<Longrightarrow>
      body_line ?e (ascii ''A'') y False = ([DrawText (ascii ''A'') 60 y 11 Helvetica BLACK], y - 77 / 5, False)"
    using cls [of "ascii ''A''"] 
    by (simp add: body_line_def body_branch_def w d drawText_def roll_def
      MARGIN_BOTTOM_def MARGIN_LEFT_def BODY_SIZE_def BODY_LINE_HEIGHT_def left_def)
  have lb: "body_line ?e (ascii ''B'') (- (13 / 5)) False =
      ([DrawText (ascii ''B'') 60 (- (13 / 5)) 11 Helvetica BLACK, AddPage 595 842], 770, False)"
    using cls [of "ascii ''B''"] 
    by (simp add: body_line_def body_branch_def w d drawText_def roll_def
      MARGIN_BOTTOM_def MARGIN_LEFT_def MARGIN_TOP_def PAGE_WIDTH_def PAGE_HEIGHT_def
      BODY_SIZE_def BODY_LINE_HEIGHT_def left_def)
  have bl: "body_loop ?e (ascii ''A'' # replicate 120 [] @ [ascii ''B'']) (3664 / 5) False =
     ([DrawText (ascii ''A'') 60 (3664 / 5) 11 Helvetica BLACK,
       DrawText (ascii ''B'') 60 (- (13 / 5)) 11 Helvetica BLACK, AddPage 595 842], 770, False)"
    by (simp add: la body_loop_blank lb)
  have up: "ascii_upper (ascii ''B'') = ascii ''B''" by (simp add: ascii_upper_def ascii_def)
  have ne: "ascii ''B'' \<noteq> []" by (simp add: ascii_def)
  show ?thesis
    by (simp add: generateResumePdf_def overflow_parse overflow_lines Let_def up w bl ne
      filter_Boolean_def List.map_filter_def drawText_def
      MARGIN_TOP_def MARGIN_BOTTOM_def MARGIN_LEFT_def MARGIN_RIGHT_def PAGE_WIDTH_def PAGE_HEIGHT_def
      CONTENT_WIDTH_def NAME_SIZE_def NAME_LINE_HEIGHT_def left_def right_def
      del: body_loop.simps)
qed

end
